theory Spec2Isabelle
  imports Main "HOL-Library.Char_ord" "HOL-Library.List_Lexorder"
begin

section \<open>Shared JavaScript vocabulary\<close>

text \<open>
  The prompt engine of snpy (class \<open>Snpy\<close>) is embedded function by function.
  JavaScript numbers that hold list indices are modelled as \<open>int\<close> (the cursor becomes
  \<open>-1\<close> on an empty list), strings as \<open>string\<close> with one list element per code unit,
  and \<open>undefined\<close> as \<open>None\<close>.
\<close>

text \<open>
  A key event as the handler installed by \<open>io.onKeyPress\<close> receives it: the raw string
  \<open>str\<close> (possibly undefined) and the fields \<open>key.name\<close>, \<open>key.ctrl\<close>, \<open>key.meta\<close>.
\<close>

record key_event =
  str :: "string option"
  name :: "string option"
  ctrl :: bool
  meta :: bool

text \<open>Truthiness of a possibly undefined string: defined and not empty.\<close>

definition truthy :: "string option \<Rightarrow> bool" where
  "truthy s = (case s of None \<Rightarrow> False | Some t \<Rightarrow> t \<noteq> [])"

text \<open>The expression \<open>x || ''\<close> on a possibly undefined string.\<close>

definition or_empty :: "string option \<Rightarrow> string" where
  "or_empty s = (case s of None \<Rightarrow> [] | Some t \<Rightarrow> (if t \<noteq> [] then t else []))"

text \<open>
  Array indexing \<open>xs[i]\<close>: \<open>undefined\<close> outside \<open>0 .. length - 1\<close>, also for a
  negative index.
\<close>

definition js_index :: "'a list \<Rightarrow> int \<Rightarrow> 'a option" where
  "js_index xs i = (if 0 \<le> i \<and> i < int (length xs) then Some (xs ! nat i) else None)"

text \<open>The keys the handlers test for, as plain events.\<close>

definition named_key :: "string \<Rightarrow> key_event" where
  "named_key n = \<lparr>str = None, name = Some n, ctrl = False, meta = False\<rparr>"

definition key_up :: key_event where
  "key_up = named_key ''up''"

definition key_down :: key_event where
  "key_down = named_key ''down''"

definition key_return :: key_event where
  "key_return = \<lparr>str = Some [CHR 0x0D], name = Some ''return'', ctrl = False, meta = False\<rparr>"

definition key_space :: key_event where
  "key_space = \<lparr>str = Some '' '', name = Some ''space'', ctrl = False, meta = False\<rparr>"

definition key_backspace :: key_event where
  "key_backspace = \<lparr>str = Some [CHR 0x7F], name = Some ''backspace'', ctrl = False, meta = False\<rparr>"

definition key_char :: "char \<Rightarrow> key_event" where
  "key_char c = \<lparr>str = Some [c], name = Some [c], ctrl = False, meta = False\<rparr>"

section \<open>Windowed list renderer\<close>

definition MAX_VISIBLE_ITEMS :: int where
  "MAX_VISIBLE_ITEMS = 10"

record visible_range =
  start :: int
  end' :: int
  showTop :: bool
  showBottom :: bool

text \<open>
  \<open>getVisibleRange(items, currentIndex, maxVisible)\<close>; \<open>Math.floor(maxVisible / 2)\<close>
  is \<open>div\<close> on integers. The two \<open>if\<close> statements reassign \<open>start\<close> and then
  \<open>end\<close>, in this order.
\<close>

definition getVisibleRange :: "'a list \<Rightarrow> int \<Rightarrow> int \<Rightarrow> visible_range" where
  "getVisibleRange items currentIndex maxVisible =
     (let len = int (length items);
          half = maxVisible div 2;
          start0 = max 0 (currentIndex - half);
          end0 = min len (start0 + maxVisible);
          start1 = (if end0 = len then max 0 (end0 - maxVisible) else start0);
          end1 = (if start1 = 0 then min len maxVisible else end0)
      in \<lparr>start = start1, end' = end1,
          showTop = (0 < start1), showBottom = (end1 < len)\<rparr>)"

section \<open>Prompt options and the shape of a key handler\<close>

text \<open>
  \<open>SnpyOptionBase<T>\<close> with the fields the handlers read; \<open>'d\<close> is the type of
  \<open>default\<close> (string for \<open>input\<close>, boolean for \<open>confirm\<close>). Optional fields are
  \<open>option\<close>s.
\<close>

record 'd snpy_option =
  message :: string
  basePath :: "string option"
  choices :: "string list option"
  default' :: "'d option"

text \<open>\<open>option.choices || []\<close> (an empty array is truthy).\<close>

definition choices_of :: "('d, 'z) snpy_option_scheme \<Rightarrow> string list" where
  "choices_of option = (case choices option of None \<Rightarrow> [] | Some cs \<Rightarrow> cs)"

text \<open>
  A key handler either leaves the prompt waiting in a new state or resolves the promise;
  resolving removes the handler, so later keys are not seen.
\<close>

datatype ('s, 'r) step = Continue 's | Resolve 'r

fun run_keys :: "('s \<Rightarrow> key_event \<Rightarrow> ('s, 'r) step) \<Rightarrow> 's \<Rightarrow> key_event list \<Rightarrow> ('s, 'r) step" where
  "run_keys h s [] = Continue s"
| "run_keys h s (k # ks) =
     (case h s k of Continue s' \<Rightarrow> run_keys h s' ks | Resolve r \<Rightarrow> Resolve r)"

record cursor =
  currentIndex :: int

section \<open>Single and numbered select\<close>

text \<open>
  The handler that \<open>handleSelectable\<close> installs. \<open>render\<close> only writes to the terminal
  and is left out. \<open>list\<close> and \<open>nlist\<close> differ in \<open>render\<close> alone.
\<close>

definition handleSelectable_key :: "('d, 'z) snpy_option_scheme \<Rightarrow> cursor \<Rightarrow> key_event \<Rightarrow> (cursor, string) step" where
  "handleSelectable_key option s key =
     (let choices = choices_of option in
      if name key = Some ''up'' then
        Continue (s\<lparr>currentIndex :=
          (if currentIndex s > 0 then currentIndex s - 1 else int (length choices) - 1)\<rparr>)
      else if name key = Some ''down'' then
        Continue (s\<lparr>currentIndex :=
          (if currentIndex s < int (length choices) - 1 then currentIndex s + 1 else 0)\<rparr>)
      else if name key = Some ''return'' then
        Resolve (or_empty (js_index choices (currentIndex s)))
      else Continue s)"

definition handleSelectable :: "('d, 'z) snpy_option_scheme \<Rightarrow> key_event list \<Rightarrow> (cursor, string) step" where
  "handleSelectable option keys = run_keys (handleSelectable_key option) \<lparr>currentIndex = 0\<rparr> keys"

section \<open>Multi-select\<close>

text \<open>
  \<open>Number.prototype.toString\<close> on an integer: decimal digits, with a minus sign for a
  negative number.
\<close>

definition digit_char :: "nat \<Rightarrow> char" where
  "digit_char d = ''0123456789'' ! d"

fun nat_toString :: "nat \<Rightarrow> string" where
  "nat_toString n =
     (if n < 10 then [digit_char n] else nat_toString (n div 10) @ [digit_char (n mod 10)])"

declare nat_toString.simps [simp del]

definition number_toString :: "int \<Rightarrow> string" where
  "number_toString i = (if i < 0 then CHR ''-'' # nat_toString (nat (- i)) else nat_toString (nat i))"

text \<open>The order of \<open><\<close> on strings: code unit by code unit, a proper prefix first.\<close>

fun string_less :: "string \<Rightarrow> string \<Rightarrow> bool" where
  "string_less [] [] = False"
| "string_less [] (y # ys) = True"
| "string_less (x # xs) [] = False"
| "string_less (x # xs) (y # ys) =
     (if (of_char x :: nat) < of_char y then True
      else if (of_char y :: nat) < of_char x then False
      else string_less xs ys)"

text \<open>
  \<open>Array.prototype.sort()\<close> called without a compare function: the elements are compared
  as strings, and the sort is stable. An insertion sort that puts an element before the
  first one that is not smaller gives that result.
\<close>

fun sort_insert :: "int \<Rightarrow> int list \<Rightarrow> int list" where
  "sort_insert x [] = [x]"
| "sort_insert x (y # ys) =
     (if string_less (number_toString y) (number_toString x) then y # sort_insert x ys
      else x # y # ys)"

definition js_sort :: "int list \<Rightarrow> int list" where
  "js_sort xs = foldr sort_insert xs []"

text \<open>
  \<open>Set<number>\<close>: a JavaScript set iterates in insertion order, so it is a list without
  repetition; \<open>add\<close> of a member changes nothing, \<open>delete\<close> removes the member.
\<close>

definition set_has :: "int list \<Rightarrow> int \<Rightarrow> bool" where
  "set_has xs x = (x \<in> set xs)"

definition set_add :: "int list \<Rightarrow> int \<Rightarrow> int list" where
  "set_add xs x = (if x \<in> set xs then xs else xs @ [x])"

definition set_delete :: "int list \<Rightarrow> int \<Rightarrow> int list" where
  "set_delete xs x = removeAll x xs"

record checkbox_state = cursor +
  selectedItems :: "int list"

text \<open>The handler that \<open>handleCheckbox\<close> installs.\<close>

definition handleCheckbox_key :: "('d, 'z) snpy_option_scheme \<Rightarrow> checkbox_state \<Rightarrow> key_event \<Rightarrow> (checkbox_state, string list) step" where
  "handleCheckbox_key option s key =
     (let choices = choices_of option in
      if name key = Some ''up'' then
        Continue (s\<lparr>currentIndex :=
          (if currentIndex s > 0 then currentIndex s - 1 else int (length choices) - 1)\<rparr>)
      else if name key = Some ''down'' then
        Continue (s\<lparr>currentIndex :=
          (if currentIndex s < int (length choices) - 1 then currentIndex s + 1 else 0)\<rparr>)
      else if name key = Some ''space'' then
        (if set_has (selectedItems s) (currentIndex s)
         then Continue (s\<lparr>selectedItems := set_delete (selectedItems s) (currentIndex s)\<rparr>)
         else Continue (s\<lparr>selectedItems := set_add (selectedItems s) (currentIndex s)\<rparr>))
      else if name key = Some ''return'' then
        Resolve (map (\<lambda>index. or_empty (js_index choices index)) (js_sort (selectedItems s)))
      else Continue s)"

definition handleCheckbox :: "('d, 'z) snpy_option_scheme \<Rightarrow> key_event list \<Rightarrow> (checkbox_state, string list) step" where
  "handleCheckbox option keys =
     run_keys (handleCheckbox_key option) \<lparr>currentIndex = 0, selectedItems = []\<rparr> keys"

section \<open>Text and confirm prompts\<close>

record input_state =
  input :: string
  hasInput :: bool

text \<open>\<open>resetLine\<close>: apart from repainting the line it clears \<open>hasInput\<close> on an empty buffer.\<close>

definition resetLine :: "input_state \<Rightarrow> input_state" where
  "resetLine s = (if length (input s) > 0 then s else s\<lparr>hasInput := False\<rparr>)"

text \<open>\<open>input.slice(0, -1)\<close>.\<close>

definition slice_but_last :: "string \<Rightarrow> string" where
  "slice_but_last t = butlast t"

text \<open>The handler that \<open>handleInput\<close> installs; \<open>defaultValue\<close> is \<open>option.default?.toString() || ''\<close>.\<close>

definition handleInput_key :: "(string, 'z) snpy_option_scheme \<Rightarrow> input_state \<Rightarrow> key_event \<Rightarrow> (input_state, string) step" where
  "handleInput_key option s key =
     (let defaultValue = or_empty (default' option) in
      if name key = Some ''return'' then
        Resolve (if input s \<noteq> [] then input s else defaultValue)
      else if name key = Some ''backspace'' then
        Continue (resetLine
          (if length (input s) > 0 then s\<lparr>input := slice_but_last (input s)\<rparr> else s))
      else if truthy (str key) \<and> \<not> ctrl key \<and> \<not> meta key then
        Continue (resetLine (s\<lparr>hasInput := True, input := input s @ the (str key)\<rparr>))
      else Continue s)"

definition handleInput :: "(string, 'z) snpy_option_scheme \<Rightarrow> key_event list \<Rightarrow> (input_state, string) step" where
  "handleInput option keys = run_keys (handleInput_key option) \<lparr>input = [], hasInput = False\<rparr> keys"






section \<open>Paths and the filesystem\<close>

text \<open>
  The source imports \<open>path\<close> and \<open>fs\<close> from the Node.js runtime. \<open>path.join\<close> and
  \<open>path.dirname\<close> are pure functions on strings; they are modelled here in their POSIX
  form. \<open>path.normalize\<close> splits at \<open>/\<close>, drops empty and \<open>.\<close> segments, lets a
  \<open>..\<close> segment cancel the segment before it, and keeps a leading \<open>..\<close> only in a
  relative path.
\<close>

fun segments :: "string \<Rightarrow> string list" where
  "segments [] = [[]]"
| "segments (c # cs) =
     (case segments cs of
        [] \<Rightarrow> [[c]]
      | seg # rest \<Rightarrow> (if c = CHR ''/'' then [] # seg # rest else (c # seg) # rest))"

fun resolve_segments :: "bool \<Rightarrow> string list \<Rightarrow> string list \<Rightarrow> string list" where
  "resolve_segments allowAboveRoot res [] = rev res"
| "resolve_segments allowAboveRoot res (seg # segs) =
     (if seg = [] \<or> seg = ''.'' then resolve_segments allowAboveRoot res segs
      else if seg = ''..'' then
        (case res of
           [] \<Rightarrow> resolve_segments allowAboveRoot (if allowAboveRoot then [''..''] else []) segs
         | r # rs \<Rightarrow>
             (if r \<noteq> ''..'' then resolve_segments allowAboveRoot rs segs
              else resolve_segments allowAboveRoot (if allowAboveRoot then ''..'' # res else res) segs))
      else resolve_segments allowAboveRoot (seg # res) segs)"

fun join_slash :: "string list \<Rightarrow> string" where
  "join_slash [] = []"
| "join_slash [seg] = seg"
| "join_slash (seg # segs) = seg @ ''/'' @ join_slash segs"

definition normalizeString :: "string \<Rightarrow> bool \<Rightarrow> string" where
  "normalizeString path allowAboveRoot = join_slash (resolve_segments allowAboveRoot [] (segments path))"

definition path_normalize :: "string \<Rightarrow> string" where
  "path_normalize path =
     (if path = [] then ''.''
      else
        let isAbsolute = (hd path = CHR ''/'');
            trailingSeparator = (last path = CHR ''/'');
            p = normalizeString path (\<not> isAbsolute)
        in if p = [] then (if isAbsolute then ''/'' else if trailingSeparator then ''./'' else ''.'')
           else (let q = (if trailingSeparator then p @ ''/'' else p)
                 in if isAbsolute then ''/'' @ q else q))"

text \<open>\<open>path.join(a, b)\<close>: the non-empty arguments joined by \<open>/\<close>, then normalised.\<close>

definition path_join :: "string \<Rightarrow> string \<Rightarrow> string" where
  "path_join a b =
     (if a \<noteq> [] then path_normalize (if b \<noteq> [] then a @ ''/'' @ b else a)
      else if b \<noteq> [] then path_normalize b
      else ''.'')"

text \<open>
  \<open>path.dirname\<close>: the loop runs \<open>i\<close> from the last index down to \<open>1\<close>, skips the
  trailing slashes and stops at the first slash after a character that is not one.
\<close>

fun dirname_end :: "string \<Rightarrow> nat \<Rightarrow> bool \<Rightarrow> nat option" where
  "dirname_end path 0 matchedSlash = None"
| "dirname_end path (Suc i) matchedSlash =
     (if path ! Suc i = CHR ''/''
      then (if \<not> matchedSlash then Some (Suc i) else dirname_end path i matchedSlash)
      else dirname_end path i False)"

definition path_dirname :: "string \<Rightarrow> string" where
  "path_dirname path =
     (if path = [] then ''.''
      else
        let hasRoot = (hd path = CHR ''/'') in
        case dirname_end path (length path - 1) True of
          None \<Rightarrow> (if hasRoot then ''/'' else ''.'')
        | Some e \<Rightarrow> (if hasRoot \<and> e = 1 then ''//'' else take e path))"

text \<open>
  The filesystem is an outside collaborator whose calls can throw. A port gives the four
  \<open>fs\<close> calls of the source over a filesystem state \<open>'fs\<close>: \<open>readdirSync\<close> returns the
  entries or throws; \<open>existsSync\<close> never throws; \<open>mkdirSync\<close> and \<open>writeFileSync\<close>
  return the state after the call, with the error when they throw.
\<close>

datatype js_error = FsError string | TypeError string

record dirent =
  dirent_name :: string
  isDirectory :: bool

record 'fs fs_port =
  readdirSync :: "'fs \<Rightarrow> string \<Rightarrow> js_error + dirent list"
  existsSync :: "'fs \<Rightarrow> string \<Rightarrow> bool"
  mkdirSync :: "'fs \<Rightarrow> string \<Rightarrow> js_error option \<times> 'fs"
  writeFileSync :: "'fs \<Rightarrow> string \<Rightarrow> string \<Rightarrow> js_error option \<times> 'fs"

text \<open>\<open>getDirectories\<close>: no \<open>try\<close> around \<open>readdirSync\<close>, so its error is thrown on.\<close>

definition getDirectories :: "'fs fs_port \<Rightarrow> 'fs \<Rightarrow> string \<Rightarrow> js_error + string list" where
  "getDirectories port fs source =
     (case readdirSync port fs source of
        Inl e \<Rightarrow> Inl e
      | Inr ents \<Rightarrow> Inr (map dirent_name (filter isDirectory ents)))"

section \<open>Directory browser\<close>

definition SELECT_THIS_PATH :: string where
  "SELECT_THIS_PATH = ''[ SELECT THIS PATH ]''"

definition SELECT_BACK_PATH :: string where
  "SELECT_BACK_PATH = ''..''"

record dir_state = cursor +
  currentPath :: string

text \<open>\<open>option.basePath || '.'\<close>.\<close>

definition basePath_of :: "('d, 'z) snpy_option_scheme \<Rightarrow> string" where
  "basePath_of option = (case basePath option of None \<Rightarrow> ''.'' | Some b \<Rightarrow> (if b \<noteq> [] then b else ''.''))"

definition getChoices :: "'fs fs_port \<Rightarrow> 'fs \<Rightarrow> ('d, 'z) snpy_option_scheme \<Rightarrow> dir_state \<Rightarrow> js_error + string list" where
  "getChoices port fs option s =
     (case getDirectories port fs (currentPath s) of
        Inl e \<Rightarrow> Inl e
      | Inr dirs \<Rightarrow>
          Inr ([SELECT_THIS_PATH]
               @ (if currentPath s \<noteq> basePath_of option then [SELECT_BACK_PATH] else [])
               @ dirs))"

text \<open>
  \<open>choices.slice(start, end)\<close> for the indices \<open>getVisibleRange\<close> returns, which are not
  negative.
\<close>

definition slice :: "'a list \<Rightarrow> int \<Rightarrow> int \<Rightarrow> 'a list" where
  "slice xs from to = drop (nat from) (take (nat to) xs)"

text \<open>
  \<open>render\<close> of the directory browser lists the directory again, so it can throw; what it
  paints is the window and the visible choices.
\<close>

definition render :: "'fs fs_port \<Rightarrow> 'fs \<Rightarrow> ('d, 'z) snpy_option_scheme \<Rightarrow> dir_state \<Rightarrow> js_error + (visible_range \<times> string list)" where
  "render port fs option s =
     (case getChoices port fs option s of
        Inl e \<Rightarrow> Inl e
      | Inr listed \<Rightarrow>
          (let choices = listed;
               w = getVisibleRange choices (currentIndex s) MAX_VISIBLE_ITEMS
           in Inr (w, slice choices (start w) (end' w))))"

text \<open>
  A key of the directory browser leaves it browsing, resolves it, hands over to the nested
  folder-name prompt (\<open>space\<close>), or throws.
\<close>

datatype dir_step = DirContinue dir_state | DirResolve string | DirCreateFolder dir_state | DirThrow js_error

definition rendered :: "'fs fs_port \<Rightarrow> 'fs \<Rightarrow> ('d, 'z) snpy_option_scheme \<Rightarrow> dir_state \<Rightarrow> dir_step" where
  "rendered port fs option s =
     (case render port fs option s of Inl e \<Rightarrow> DirThrow e | Inr frame \<Rightarrow> DirContinue s)"

text \<open>
  \<open>keyPressHandler\<close> of \<open>handleDirectory\<close>. With \<open>selected\<close> undefined, neither marker
  matches and \<open>path.join\<close> throws a \<open>TypeError\<close> on the argument that is not a string.
\<close>

definition handleDirectory_key :: "'fs fs_port \<Rightarrow> 'fs \<Rightarrow> ('d, 'z) snpy_option_scheme \<Rightarrow> dir_state \<Rightarrow> key_event \<Rightarrow> dir_step" where
  "handleDirectory_key port fs option s key =
     (case getChoices port fs option s of
        Inl e \<Rightarrow> DirThrow e
      | Inr listed \<Rightarrow>
          let choices = listed in
          if name key = Some ''up'' then
            rendered port fs option (s\<lparr>currentIndex :=
              (if currentIndex s > 0 then currentIndex s - 1 else int (length choices) - 1)\<rparr>)
          else if name key = Some ''down'' then
            rendered port fs option (s\<lparr>currentIndex :=
              (if currentIndex s < int (length choices) - 1 then currentIndex s + 1 else 0)\<rparr>)
          else if name key = Some ''space'' then DirCreateFolder s
          else if name key = Some ''return'' then
            (let selected = js_index choices (currentIndex s) in
             if selected = Some SELECT_THIS_PATH then DirResolve (currentPath s)
             else if selected = Some SELECT_BACK_PATH then
               rendered port fs option (s\<lparr>currentPath := path_dirname (currentPath s), currentIndex := 0\<rparr>)
             else
               (case selected of
                  None \<Rightarrow> DirThrow (TypeError ''ERR_INVALID_ARG_TYPE'')
                | Some entry \<Rightarrow>
                    rendered port fs option
                      (s\<lparr>currentPath := path_join (currentPath s) entry, currentIndex := 0\<rparr>)))
          else if name key = Some ''backspace'' then
            (if currentPath s \<noteq> basePath_of option then
               rendered port fs option (s\<lparr>currentPath := path_dirname (currentPath s), currentIndex := 0\<rparr>)
             else DirContinue s)
          else DirContinue s)"

text \<open>Keys are handled one after the other on a filesystem that stays as it is.\<close>

fun run_dir_keys :: "'fs fs_port \<Rightarrow> 'fs \<Rightarrow> ('d, 'z) snpy_option_scheme \<Rightarrow> dir_state \<Rightarrow> key_event list \<Rightarrow> dir_step" where
  "run_dir_keys port fs option s [] = DirContinue s"
| "run_dir_keys port fs option s (k # ks) =
     (case handleDirectory_key port fs option s k of
        DirContinue s' \<Rightarrow> run_dir_keys port fs option s' ks
      | other \<Rightarrow> other)"

text \<open>\<open>handleDirectory\<close>: the first \<open>render\<close>, then the keys.\<close>

definition handleDirectory :: "'fs fs_port \<Rightarrow> 'fs \<Rightarrow> ('d, 'z) snpy_option_scheme \<Rightarrow> key_event list \<Rightarrow> dir_step" where
  "handleDirectory port fs option keys =
     (case rendered port fs option \<lparr>currentIndex = 0, currentPath = basePath_of option\<rparr> of
        DirContinue s \<Rightarrow> run_dir_keys port fs option s keys
      | other \<Rightarrow> other)"

section \<open>Folder and template helpers\<close>

text \<open>
  A helper returns its value or throws, leaves a filesystem state, and may have passed
  messages to \<open>logError\<close>.
\<close>

record ('a, 'fs) effect =
  outcome :: "js_error + 'a"
  fs_after :: 'fs
  errors_logged :: "string list"

text \<open>
  \<open>createNewFolder\<close> of the directory browser, from the point where the nested prompt has
  resolved with \<open>folderName\<close>: the value is the success flag with the new current path.
\<close>

definition createNewFolder :: "'fs fs_port \<Rightarrow> 'fs \<Rightarrow> dir_state \<Rightarrow> string \<Rightarrow> (bool \<times> dir_state, 'fs) effect" where
  "createNewFolder port fs s folderName =
     (if folderName = [] then \<lparr>outcome = Inr (False, s), fs_after = fs, errors_logged = []\<rparr>
      else
        let newPath = path_join (currentPath s) folderName in
        if existsSync port fs newPath then
          \<lparr>outcome = Inr (False, s), fs_after = fs,
           errors_logged = [[CHR 0x0A] @ ''Folder already exists!'' @ [CHR 0x0A]]\<rparr>
        else
          (case mkdirSync port fs newPath of
             (None, fs') \<Rightarrow>
               \<lparr>outcome = Inr (True, s\<lparr>currentPath := newPath\<rparr>), fs_after = fs', errors_logged = []\<rparr>
           | (Some e, fs') \<Rightarrow>
               \<lparr>outcome = Inr (False, s), fs_after = fs',
                errors_logged = [[CHR 0x0A] @ ''Failed to create folder!'' @ [CHR 0x0A]]\<rparr>))"

text \<open>\<open>makeFolder\<close>: \<open>false\<close> is \<open>None\<close>, the new path \<open>Some\<close>; \<open>mkdirSync\<close> is not guarded.\<close>

definition makeFolder :: "'fs fs_port \<Rightarrow> 'fs \<Rightarrow> string \<Rightarrow> string \<Rightarrow> (string option, 'fs) effect" where
  "makeFolder port fs currentPath' folderName =
     (let newPath = path_join currentPath' folderName in
      if existsSync port fs newPath then
        \<lparr>outcome = Inr None, fs_after = fs, errors_logged = [''[Snpy-Error] Folder already exists!'']\<rparr>
      else
        (case mkdirSync port fs newPath of
           (None, fs') \<Rightarrow> \<lparr>outcome = Inr (Some newPath), fs_after = fs', errors_logged = []\<rparr>
         | (Some e, fs') \<Rightarrow> \<lparr>outcome = Inl e, fs_after = fs', errors_logged = []\<rparr>))"

text \<open>\<open>makeTemplate\<close>: returns nothing; \<open>writeFileSync\<close> sits in a \<open>try\<close>.\<close>

definition makeTemplate :: "'fs fs_port \<Rightarrow> 'fs \<Rightarrow> string \<Rightarrow> string \<Rightarrow> string \<Rightarrow> (unit, 'fs) effect" where
  "makeTemplate port fs dir file_name code =
     (let filePath = path_join dir file_name in
      if existsSync port fs filePath then
        \<lparr>outcome = Inr (), fs_after = fs,
         errors_logged = [''[Snpy-Error] File already exists: '' @ filePath]\<rparr>
      else
        (case writeFileSync port fs filePath code of
           (None, fs') \<Rightarrow> \<lparr>outcome = Inr (), fs_after = fs', errors_logged = []\<rparr>
         | (Some e, fs') \<Rightarrow>
             \<lparr>outcome = Inr (), fs_after = fs',
              errors_logged = [''[Snpy-Error] Failed to write file: '' @ filePath]\<rparr>))"

section \<open>An in-memory filesystem\<close>

text \<open>
  A small filesystem to run the browser and the helpers on: an association list from
  normalised relative paths to nodes. Creating or writing below a path that is not a
  directory fails, as does listing one.
\<close>

datatype node = Dir | File string

type_synonym mem_fs = "(string \<times> node) list"

definition mem_readdirSync :: "mem_fs \<Rightarrow> string \<Rightarrow> js_error + dirent list" where
  "mem_readdirSync fs p =
     (if map_of fs p = Some Dir then
        Inr (map (\<lambda>(q, n). \<lparr>dirent_name = drop (if p = ''.'' then 0 else length p + 1) q,
                              isDirectory = (n = Dir)\<rparr>)
               (filter (\<lambda>(q, n). q \<noteq> p \<and> path_dirname q = p) fs))
      else Inl (FsError (if map_of fs p = None then ''ENOENT'' else ''ENOTDIR'')))"

definition mem_existsSync :: "mem_fs \<Rightarrow> string \<Rightarrow> bool" where
  "mem_existsSync fs p = (map_of fs p \<noteq> None)"

definition mem_mkdirSync :: "mem_fs \<Rightarrow> string \<Rightarrow> js_error option \<times> mem_fs" where
  "mem_mkdirSync fs p =
     (if map_of fs p \<noteq> None then (Some (FsError ''EEXIST''), fs)
      else if map_of fs (path_dirname p) = Some Dir then (None, fs @ [(p, Dir)])
      else (Some (FsError ''ENOENT''), fs))"

definition mem_writeFileSync :: "mem_fs \<Rightarrow> string \<Rightarrow> string \<Rightarrow> js_error option \<times> mem_fs" where
  "mem_writeFileSync fs p content =
     (if map_of fs p = Some Dir then (Some (FsError ''EISDIR''), fs)
      else if map_of fs (path_dirname p) = Some Dir
        then (None, (p, File content) # filter (\<lambda>(q, n). q \<noteq> p) fs)
      else (Some (FsError ''ENOENT''), fs))"

definition mem_port :: "mem_fs fs_port" where
  "mem_port = \<lparr>readdirSync = mem_readdirSync, existsSync = mem_existsSync,
               mkdirSync = mem_mkdirSync, writeFileSync = mem_writeFileSync\<rparr>"

section \<open>Vocabulary of the properties\<close>

text \<open>
  A key that types text into a text or confirm prompt: neither the confirm key nor
  backspace, with a non-empty string and no modifier held.
\<close>

definition types_text :: "key_event \<Rightarrow> bool" where
  "types_text k = (name k \<noteq> Some ''return'' \<and> name k \<noteq> Some ''backspace''
                   \<and> truthy (str k) \<and> \<not> ctrl k \<and> \<not> meta k)"

text \<open>Reading a string of decimal digits back, to tell the strings of two numbers apart.\<close>

definition digit_val :: "char \<Rightarrow> nat" where
  "digit_val c = of_char c - 48"

definition digits_value :: "string \<Rightarrow> nat" where
  "digits_value t = foldl (\<lambda>a c. 10 * a + digit_val c) 0 t"

text \<open>A directory tree to browse, and a port on which listing some directories is denied.\<close>

definition sample_fs :: mem_fs where
  "sample_fs = [(''.'', Dir), (''foo'', Dir), (''foo/bar'', Dir),
                (''readme.md'', File ''hello''), (''src'', Dir)]"

definition denying_port :: "string list \<Rightarrow> mem_fs fs_port" where
  "denying_port denied =
     mem_port\<lparr>readdirSync :=
       (\<lambda>fs p. if p \<in> set denied then Inl (FsError ''EACCES'') else mem_readdirSync fs p)\<rparr>"

definition browse_option :: "string snpy_option" where
  "browse_option = \<lparr>message = ''Choose target directory'', basePath = Some ''.'',
                    choices = None, default' = None\<rparr>"

section \<open>Properties of the windowed list renderer\<close>

text \<open>
  C3. For every list of \<open>itemCount \<ge> 0\<close> items and every cursor with
  \<open>0 \<le> currentIndex < max itemCount 1\<close>, the window for \<open>maxVisible = 10\<close> satisfies,
  when the list is not empty, \<open>0 \<le> start \<le> currentIndex < end \<le> itemCount\<close> and
  \<open>end - start \<le> 10\<close>; \<open>showTop\<close> holds exactly when \<open>start > 0\<close> and \<open>showBottom\<close>
  exactly when \<open>end < itemCount\<close>; for the empty list \<open>start = end = 0\<close> and both
  indicators are false.
\<close>

theorem getVisibleRange_window:
  fixes items :: "'a list" and currentIndex :: int
  assumes "0 \<le> currentIndex" and "currentIndex < max (int (length items)) 1"
  shows "let w = getVisibleRange items currentIndex MAX_VISIBLE_ITEMS in
         (0 < length items \<longrightarrow>
            0 \<le> start w \<and> start w \<le> currentIndex \<and> currentIndex < end' w
            \<and> end' w \<le> int (length items))
         \<and> end' w - start w \<le> MAX_VISIBLE_ITEMS
         \<and> showTop w = (0 < start w)
         \<and> showBottom w = (end' w < int (length items))
         \<and> (length items = 0 \<longrightarrow>
              start w = 0 \<and> end' w = 0 \<and> \<not> showTop w \<and> \<not> showBottom w)"
proof (cases "length items = 0")
  case True
  then show ?thesis
    by (simp add: getVisibleRange_def MAX_VISIBLE_ITEMS_def Let_def)
next
  case False
  then have "1 \<le> int (length items)"
    by (cases items) simp_all
  with assms(2) have "currentIndex < int (length items)"
    by linarith
  with assms(1) False show ?thesis
    unfolding getVisibleRange_def MAX_VISIBLE_ITEMS_def Let_def
    by (auto simp: max_def min_def split: if_splits)
qed

theorem getVisibleRange_window_witness:
  "(0::int) \<le> 9 \<and> 9 < max (int (length [0 ..< 12])) 1
   \<and> getVisibleRange [0 ..< 12] 9 MAX_VISIBLE_ITEMS
       = \<lparr>start = 2, end' = 12, showTop = True, showBottom = False\<rparr>
   \<and> start (getVisibleRange [0 ..< 12] 9 MAX_VISIBLE_ITEMS) \<le> 9
   \<and> 9 < end' (getVisibleRange [0 ..< 12] 9 MAX_VISIBLE_ITEMS)
   \<and> (0::int) < max (int (length ([] :: nat list))) 1
   \<and> getVisibleRange ([] :: nat list) 0 MAX_VISIBLE_ITEMS
       = \<lparr>start = 0, end' = 0, showTop = False, showBottom = False\<rparr>"
  using getVisibleRange_window [of 9 "[0 ..< 12]"]
        getVisibleRange_window [of 0 "[] :: nat list"]
  by (simp add: getVisibleRange_def MAX_VISIBLE_ITEMS_def Let_def)

section \<open>Running a list of keys\<close>

lemma run_keys_append:
  "run_keys h s (ks @ ks') =
     (case run_keys h s ks of Continue s' \<Rightarrow> run_keys h s' ks' | Resolve r \<Rightarrow> Resolve r)"
  by (induction ks arbitrary: s) (auto split: step.splits)

lemma run_dir_keys_append:
  "run_dir_keys port fs option s (ks @ ks') =
     (case run_dir_keys port fs option s ks of
        DirContinue s' \<Rightarrow> run_dir_keys port fs option s' ks'
      | other \<Rightarrow> other)"
  by (induction ks arbitrary: s) (auto split: dir_step.splits)

section \<open>Properties of the select prompts\<close>

lemma choices_of_empty:
  "choices option = None \<or> choices option = Some [] \<Longrightarrow> choices_of option = []"
  by (auto simp: choices_of_def)

lemma handleSelectable_key_empty:
  assumes "choices_of option = []"
  shows "handleSelectable_key option s k = Resolve r \<Longrightarrow> r = []"
  using assms
  by (auto simp: handleSelectable_key_def Let_def js_index_def or_empty_def split: if_splits)

lemma run_selectable_empty:
  assumes "choices_of option = []" and "name key = Some ''return''"
  shows "run_keys (handleSelectable_key option) s (ks @ [key]) = Resolve []"
proof (induction ks arbitrary: s)
  case Nil
  show ?case using assms
    by (simp add: handleSelectable_key_def Let_def js_index_def or_empty_def)
next
  case (Cons k ks)
  show ?case
  proof (cases "handleSelectable_key option s k")
    case (Continue s')
    then show ?thesis using Cons.IH by simp
  next
    case (Resolve r)
    then show ?thesis using handleSelectable_key_empty [OF assms(1) Resolve] by simp
  qed
qed

text \<open>
  C9. A \<open>list\<close> or \<open>nlist\<close> prompt whose choices are empty or absent still resolves on
  the confirm key, with the empty string: from every cursor value, and after every
  sequence of earlier keys.
\<close>

theorem handleSelectable_empty_choices:
  assumes "choices option = None \<or> choices option = Some []"
      and "name key = Some ''return''"
  shows "handleSelectable_key option s key = Resolve []
         \<and> handleSelectable option (ks @ [key]) = Resolve []"
proof -
  have e: "choices_of option = []" using assms(1) by (rule choices_of_empty)
  have "handleSelectable_key option s key = Resolve []"
    using e assms(2) by (simp add: handleSelectable_key_def Let_def js_index_def or_empty_def)
  moreover have "handleSelectable option (ks @ [key]) = Resolve []"
    unfolding handleSelectable_def by (rule run_selectable_empty [OF e assms(2)])
  ultimately show ?thesis by simp
qed

theorem handleSelectable_empty_choices_witness:
  "handleSelectable
     \<lparr>message = ''Pick'', basePath = None, choices = None, default' = (None :: string option)\<rparr>
     ([key_up, key_down, key_up] @ [key_return]) = Resolve []
   \<and> handleSelectable_key
       \<lparr>message = ''Pick'', basePath = None, choices = Some [], default' = (None :: string option)\<rparr>
       \<lparr>currentIndex = -1\<rparr> key_return = Resolve []"
  using handleSelectable_empty_choices
          [of "\<lparr>message = ''Pick'', basePath = None, choices = None, default' = (None :: string option)\<rparr>"
              key_return "\<lparr>currentIndex = 0\<rparr>" "[key_up, key_down, key_up]"]
        handleSelectable_empty_choices
          [of "\<lparr>message = ''Pick'', basePath = None, choices = Some [], default' = (None :: string option)\<rparr>"
              key_return "\<lparr>currentIndex = -1\<rparr>" "[]"]
  by (simp add: key_return_def)

subsection \<open>The default sort depends on the set of indices only\<close>

lemma string_less_iff: "string_less a b \<longleftrightarrow> a < b"
  by (induction a b rule: string_less.induct) (auto simp: less_char_def)

lemma sort_insert_insort: "sort_insert x ys = insort_key number_toString x ys"
  by (induction ys) (auto simp: string_less_iff)

lemma js_sort_sort_key: "js_sort xs = sort_key number_toString xs"
proof -
  have "sort_insert = insort_key number_toString"
    by (intro ext) (rule sort_insert_insort)
  then show ?thesis by (simp add: js_sort_def sort_key_def)
qed

lemma digit_val_digit_char: "d < 10 \<Longrightarrow> digit_val (digit_char d) = d"
proof -
  assume "d < 10"
  then consider "d = 0" | "d = 1" | "d = 2" | "d = 3" | "d = 4" | "d = 5" | "d = 6" | "d = 7"
    | "d = 8" | "d = 9" by force
  then show ?thesis by cases (simp_all add: digit_val_def digit_char_def)
qed

lemma digit_char_not_minus: "d < 10 \<Longrightarrow> digit_char d \<noteq> CHR ''-''"
proof -
  assume "d < 10"
  then consider "d = 0" | "d = 1" | "d = 2" | "d = 3" | "d = 4" | "d = 5" | "d = 6" | "d = 7"
    | "d = 8" | "d = 9" by force
  then show ?thesis by cases (simp_all add: digit_char_def)
qed

lemma digits_value_nat_toString: "digits_value (nat_toString n) = n"
proof (induction n rule: nat_toString.induct)
  case (1 n)
  show ?case
  proof (cases "n < 10")
    case True
    then show ?thesis
      by (subst nat_toString.simps) (simp add: digits_value_def digit_val_digit_char)
  next
    case False
    then have "digits_value (nat_toString (n div 10)) = n div 10" using 1 by simp
    with False show ?thesis
      by (subst nat_toString.simps) (simp add: digits_value_def digit_val_digit_char)
  qed
qed

lemma nat_toString_inj: "nat_toString m = nat_toString n \<Longrightarrow> m = n"
  by (metis digits_value_nat_toString)

lemma nat_toString_no_minus: "CHR ''-'' \<notin> set (nat_toString n)"
proof (induction n rule: nat_toString.induct)
  case (1 n)
  show ?case
  proof (cases "n < 10")
    case True
    then show ?thesis
      using digit_char_not_minus [of n] by (subst nat_toString.simps) auto
  next
    case False
    then have "CHR ''-'' \<notin> set (nat_toString (n div 10))" using 1 by simp
    with False show ?thesis
      using digit_char_not_minus [of "n mod 10"] by (subst nat_toString.simps) auto
  qed
qed

lemma number_toString_inj: "inj number_toString"
proof (rule injI)
  fix i j :: int
  assume eq: "number_toString i = number_toString j"
  have neg_pos: False if "a < 0" "\<not> b < 0" "number_toString a = number_toString b" for a b :: int
  proof -
    from that have "CHR ''-'' # nat_toString (nat (- a)) = nat_toString (nat b)"
      by (simp add: number_toString_def)
    then have "CHR ''-'' \<in> set (nat_toString (nat b))"
      by (metis list.set_intros(1))
    then show False using nat_toString_no_minus by blast
  qed
  show "i = j"
  proof (cases "i < 0"; cases "j < 0")
    assume "i < 0" "j < 0"
    with eq have "nat (- i) = nat (- j)"
      by (simp add: number_toString_def nat_toString_inj)
    with \<open>i < 0\<close> \<open>j < 0\<close> show ?thesis by linarith
  next
    assume "i < 0" "\<not> j < 0"
    then show ?thesis using neg_pos eq by blast
  next
    assume "\<not> i < 0" "j < 0"
    then show ?thesis using neg_pos [of j i] eq by simp
  next
    assume "\<not> i < 0" "\<not> j < 0"
    with eq have "nat i = nat j"
      by (simp add: number_toString_def nat_toString_inj)
    with \<open>\<not> i < 0\<close> \<open>\<not> j < 0\<close> show ?thesis by linarith
  qed
qed

lemma js_sort_set_unique:
  assumes "distinct xs" and "distinct ys" and "set xs = set ys"
  shows "js_sort xs = js_sort ys"
proof -
  let ?f = number_toString
  have "map ?f (sort_key ?f xs) = map ?f (sort_key ?f ys)"
  proof (rule sorted_distinct_set_unique)
    show "sorted (map ?f (sort_key ?f xs))" "sorted (map ?f (sort_key ?f ys))"
      by (rule sorted_sort_key)+
    show "distinct (map ?f (sort_key ?f xs))"
      using assms(1) number_toString_inj by (simp add: distinct_map inj_on_def inj_def)
    show "distinct (map ?f (sort_key ?f ys))"
      using assms(2) number_toString_inj by (simp add: distinct_map inj_on_def inj_def)
    show "set (map ?f (sort_key ?f xs)) = set (map ?f (sort_key ?f ys))"
      using assms(3) by simp
  qed
  then have "sort_key ?f xs = sort_key ?f ys"
    using number_toString_inj by (simp add: inj_map_eq_map)
  then show ?thesis by (simp add: js_sort_sort_key)
qed

text \<open>The list that holds the selection set never repeats an index.\<close>

lemma handleCheckbox_key_distinct:
  "distinct (selectedItems s) \<Longrightarrow> handleCheckbox_key option s k = Continue s' \<Longrightarrow>
   distinct (selectedItems s')"
  by (auto simp: handleCheckbox_key_def Let_def set_has_def set_add_def set_delete_def
        distinct_removeAll split: if_splits)

lemma run_checkbox_distinct:
  "distinct (selectedItems s) \<Longrightarrow> run_keys (handleCheckbox_key option) s ks = Continue s' \<Longrightarrow>
   distinct (selectedItems s')"
proof (induction ks arbitrary: s)
  case Nil
  then show ?case by simp
next
  case (Cons k ks)
  then show ?case
    by (cases "handleCheckbox_key option s k") (auto dest: handleCheckbox_key_distinct)
qed

text \<open>
  C10. Pressing the toggle key twice at the same cursor index restores the selection set:
  the set of selected indices and the cursor are those from before, the list that holds
  the set stays free of repetitions, and the confirm key then resolves with what it would
  have resolved with before the two presses.
\<close>

theorem handleCheckbox_toggle_twice:
  assumes "name key = Some ''space''" and "distinct (selectedItems s)"
  shows "\<exists>s'. run_keys (handleCheckbox_key option) s [key, key] = Continue s'
           \<and> set (selectedItems s') = set (selectedItems s)
           \<and> distinct (selectedItems s')
           \<and> currentIndex s' = currentIndex s
           \<and> handleCheckbox_key option s' key_return = handleCheckbox_key option s key_return"
proof -
  have "\<exists>s'. run_keys (handleCheckbox_key option) s [key, key] = Continue s'
           \<and> set (selectedItems s') = set (selectedItems s)
           \<and> currentIndex s' = currentIndex s"
    using assms(1)
    by (auto simp: handleCheckbox_key_def Let_def set_has_def set_add_def set_delete_def)
  then obtain s' where run: "run_keys (handleCheckbox_key option) s [key, key] = Continue s'"
    and same: "set (selectedItems s') = set (selectedItems s)"
    and cur: "currentIndex s' = currentIndex s"
    by blast
  have d: "distinct (selectedItems s')"
    using run_checkbox_distinct [OF assms(2) run] .
  have "js_sort (selectedItems s') = js_sort (selectedItems s)"
    using d assms(2) same by (rule js_sort_set_unique)
  then have "handleCheckbox_key option s' key_return = handleCheckbox_key option s key_return"
    by (simp add: handleCheckbox_key_def key_return_def Let_def)
  with run same d cur show ?thesis by blast
qed

theorem handleCheckbox_toggle_twice_witness:
  "name key_space = Some ''space''
   \<and> distinct [3, 1 :: int]
   \<and> (\<exists>s'. run_keys
              (handleCheckbox_key
                 \<lparr>message = ''Pick'', basePath = None, choices = Some [''A'', ''B'', ''C'', ''D''],
                  default' = (None :: string list option)\<rparr>)
              \<lparr>currentIndex = 3, selectedItems = [3, 1]\<rparr> [key_space, key_space] = Continue s'
            \<and> set (selectedItems s') = {1, 3} \<and> currentIndex s' = 3 \<and> distinct (selectedItems s')
            \<and> handleCheckbox_key
                 \<lparr>message = ''Pick'', basePath = None, choices = Some [''A'', ''B'', ''C'', ''D''],
                  default' = (None :: string list option)\<rparr> s' key_return = Resolve [''B'', ''D''])"
proof -
  have r: "handleCheckbox_key
             \<lparr>message = ''Pick'', basePath = None, choices = Some [''A'', ''B'', ''C'', ''D''],
              default' = (None :: string list option)\<rparr>
             \<lparr>currentIndex = 3, selectedItems = [3, 1]\<rparr> key_return = Resolve [''B'', ''D'']"
    by code_simp
  have k: "name key_space = Some ''space''" by (simp add: key_space_def)
  have d: "distinct (selectedItems \<lparr>currentIndex = 3, selectedItems = [3, 1]\<rparr>)" by simp
  from handleCheckbox_toggle_twice [OF k d,
         of "\<lparr>message = ''Pick'', basePath = None, choices = Some [''A'', ''B'', ''C'', ''D''],
              default' = (None :: string list option)\<rparr>"]
  show ?thesis using k by (auto simp: r)
qed

text \<open>
  C1. The confirm key of the multi-select prompt is meant to give the selected labels by
  ascending index. With eleven choices and the indices 2 and 10 toggled, in this order,
  the selection set holds 2 and 10 and the prompt resolves with the label of index 10
  before the label of index 2: \<open>sort()\<close> compares the indices as the strings \<open>10\<close> and
  \<open>2\<close>.
\<close>

theorem handleCheckbox_sorts_as_strings:
  "run_keys
     (handleCheckbox_key
        \<lparr>message = ''Pick'', basePath = None,
         choices = Some [''A'', ''B'', ''C'', ''D'', ''E'', ''F'', ''G'', ''H'', ''I'', ''J'', ''K''],
         default' = (None :: string list option)\<rparr>)
     \<lparr>currentIndex = 0, selectedItems = []\<rparr>
     (replicate 2 key_down @ [key_space] @ replicate 8 key_down @ [key_space])
     = Continue \<lparr>currentIndex = 10, selectedItems = [2, 10]\<rparr>
   \<and> js_sort [2, 10] = [10, 2]
   \<and> handleCheckbox
       \<lparr>message = ''Pick'', basePath = None,
        choices = Some [''A'', ''B'', ''C'', ''D'', ''E'', ''F'', ''G'', ''H'', ''I'', ''J'', ''K''],
        default' = (None :: string list option)\<rparr>
       (replicate 2 key_down @ [key_space] @ replicate 8 key_down @ [key_space] @ [key_return])
     = Resolve [''K'', ''C'']"
  by code_simp

section \<open>Cursor movement\<close>

lemma wrap_down_mod:
  fixes i n :: int
  assumes "0 \<le> i" and "i < n"
  shows "(if i < n - 1 then i + 1 else 0) = (i + 1) mod n"
proof (cases "i < n - 1")
  case True
  then show ?thesis using assms by (simp add: mod_pos_pos_trivial)
next
  case False
  with assms have "i + 1 = n" by linarith
  then show ?thesis using False by simp
qed

lemma mod_step:
  fixes i n :: int
  shows "((i + 1) mod n + int k) mod n = (i + int (Suc k)) mod n"
proof -
  have "((i + 1) mod n + int k) mod n = ((i + 1) + int k) mod n"
    by (rule mod_add_left_eq)
  also have "(i + 1) + int k = i + int (Suc k)" by simp
  finally show ?thesis .
qed

lemma selectable_down:
  "handleSelectable_key option s key_down =
     Continue (s\<lparr>currentIndex :=
       (if currentIndex s < int (length (choices_of option)) - 1 then currentIndex s + 1 else 0)\<rparr>)"
  by (simp add: handleSelectable_key_def key_down_def named_key_def Let_def)

lemma selectable_down_run:
  assumes "0 \<le> currentIndex s" and "currentIndex s < int (length (choices_of option))"
  shows "run_keys (handleSelectable_key option) s (replicate k key_down)
           = Continue (s\<lparr>currentIndex := (currentIndex s + int k) mod int (length (choices_of option))\<rparr>)"
  using assms
proof (induction k arbitrary: s)
  case 0
  then show ?case by (simp add: mod_pos_pos_trivial)
next
  case (Suc k)
  let ?n = "int (length (choices_of option))"
  let ?s = "s\<lparr>currentIndex := (currentIndex s + 1) mod ?n\<rparr>"
  have step: "handleSelectable_key option s key_down = Continue ?s"
    using wrap_down_mod [OF Suc.prems] by (simp add: selectable_down)
  have n: "0 < ?n" using Suc.prems by linarith
  have "run_keys (handleSelectable_key option) ?s (replicate k key_down)
          = Continue (?s\<lparr>currentIndex := (currentIndex ?s + int k) mod ?n\<rparr>)"
    using n by (intro Suc.IH) simp_all
  moreover have "((currentIndex s + 1) mod ?n + int k) mod ?n = (currentIndex s + int (Suc k)) mod ?n"
    by (rule mod_step)
  ultimately show ?case by (simp add: step)
qed

lemma checkbox_down:
  "handleCheckbox_key option s key_down =
     Continue (s\<lparr>currentIndex :=
       (if currentIndex s < int (length (choices_of option)) - 1 then currentIndex s + 1 else 0)\<rparr>)"
  by (simp add: handleCheckbox_key_def key_down_def named_key_def Let_def)

lemma checkbox_down_run:
  assumes "0 \<le> currentIndex s" and "currentIndex s < int (length (choices_of option))"
  shows "run_keys (handleCheckbox_key option) s (replicate k key_down)
           = Continue (s\<lparr>currentIndex := (currentIndex s + int k) mod int (length (choices_of option))\<rparr>)"
  using assms
proof (induction k arbitrary: s)
  case 0
  then show ?case by (simp add: mod_pos_pos_trivial)
next
  case (Suc k)
  let ?n = "int (length (choices_of option))"
  let ?s = "s\<lparr>currentIndex := (currentIndex s + 1) mod ?n\<rparr>"
  have step: "handleCheckbox_key option s key_down = Continue ?s"
    using wrap_down_mod [OF Suc.prems] by (simp add: checkbox_down)
  have n: "0 < ?n" using Suc.prems by linarith
  have "run_keys (handleCheckbox_key option) ?s (replicate k key_down)
          = Continue (?s\<lparr>currentIndex := (currentIndex ?s + int k) mod ?n\<rparr>)"
    using n by (intro Suc.IH) simp_all
  moreover have "((currentIndex s + 1) mod ?n + int k) mod ?n = (currentIndex s + int (Suc k)) mod ?n"
    by (rule mod_step)
  ultimately show ?case by (simp add: step)
qed

lemma getChoices_cursor:
  "getChoices port fs option (s\<lparr>currentIndex := i\<rparr>) = getChoices port fs option s"
  by (simp add: getChoices_def)

lemma rendered_ok:
  "getChoices port fs option s = Inr cs \<Longrightarrow> rendered port fs option s = DirContinue s"
  by (simp add: rendered_def render_def Let_def)

lemma directory_down:
  assumes "getChoices port fs option s = Inr cs"
  shows "handleDirectory_key port fs option s key_down =
     DirContinue (s\<lparr>currentIndex :=
       (if currentIndex s < int (length cs) - 1 then currentIndex s + 1 else 0)\<rparr>)"
  using assms
  by (simp add: handleDirectory_key_def key_down_def named_key_def Let_def
        rendered_ok [where cs = cs] getChoices_cursor)

lemma directory_up:
  assumes "getChoices port fs option s = Inr cs"
  shows "handleDirectory_key port fs option s key_up =
     DirContinue (s\<lparr>currentIndex :=
       (if currentIndex s > 0 then currentIndex s - 1 else int (length cs) - 1)\<rparr>)"
  using assms
  by (simp add: handleDirectory_key_def key_up_def named_key_def Let_def
        rendered_ok [where cs = cs] getChoices_cursor)

lemma directory_down_run:
  assumes "getChoices port fs option s = Inr cs"
      and "0 \<le> currentIndex s" and "currentIndex s < int (length cs)"
  shows "run_dir_keys port fs option s (replicate k key_down)
           = DirContinue (s\<lparr>currentIndex := (currentIndex s + int k) mod int (length cs)\<rparr>)"
  using assms
proof (induction k arbitrary: s)
  case 0
  then show ?case by (simp add: mod_pos_pos_trivial)
next
  case (Suc k)
  let ?n = "int (length cs)"
  let ?s = "s\<lparr>currentIndex := (currentIndex s + 1) mod ?n\<rparr>"
  have step: "handleDirectory_key port fs option s key_down = DirContinue ?s"
    using wrap_down_mod [OF Suc.prems(2,3)] by (simp add: directory_down [OF Suc.prems(1)])
  have n: "0 < ?n" using Suc.prems by linarith
  have "run_dir_keys port fs option ?s (replicate k key_down)
          = DirContinue (?s\<lparr>currentIndex := (currentIndex ?s + int k) mod ?n\<rparr>)"
    using n Suc.prems(1) by (intro Suc.IH) (simp_all add: getChoices_cursor)
  moreover have "((currentIndex s + 1) mod ?n + int k) mod ?n = (currentIndex s + int (Suc k)) mod ?n"
    by (rule mod_step)
  ultimately show ?case by (simp add: step)
qed

lemma directory_down_steps:
  assumes "getChoices port fs option s = Inr cs"
      and "0 \<le> currentIndex s" and "currentIndex s + int k < int (length cs)"
  shows "run_dir_keys port fs option s (replicate k key_down)
           = DirContinue (s\<lparr>currentIndex := currentIndex s + int k\<rparr>)"
proof -
  have "currentIndex s < int (length cs)" using assms(3) by linarith
  then have "run_dir_keys port fs option s (replicate k key_down)
           = DirContinue (s\<lparr>currentIndex := (currentIndex s + int k) mod int (length cs)\<rparr>)"
    using assms(1,2) by (intro directory_down_run)
  moreover have "(currentIndex s + int k) mod int (length cs) = currentIndex s + int k"
    using assms(2,3) by (simp add: mod_pos_pos_trivial)
  ultimately show ?thesis by simp
qed


text \<open>
  C6. On a non-empty choice list the cursor wraps around: \<open>up\<close> at index 0 goes to the
  last index, \<open>down\<close> at the last index goes to 0, and \<open>down\<close> pressed as many times
  as there are items returns the cursor to where it started; for the single and numbered
  select, the multi-select and the directory browser, whose list is read from a filesystem
  that stays as it is.
\<close>

theorem cursor_wraparound:
  assumes "choices_of option \<noteq> []"
      and "getChoices port fs dopt \<lparr>currentIndex = 0, currentPath = p\<rparr> = Inr listed"
      and "0 \<le> i" and "i < int (length (choices_of option))"
      and "0 \<le> j" and "j < int (length listed)"
  shows
    "handleSelectable_key option \<lparr>currentIndex = 0\<rparr> key_up
       = Continue \<lparr>currentIndex = int (length (choices_of option)) - 1\<rparr>
   \<and> handleSelectable_key option \<lparr>currentIndex = int (length (choices_of option)) - 1\<rparr> key_down
       = Continue \<lparr>currentIndex = 0\<rparr>
   \<and> run_keys (handleSelectable_key option) \<lparr>currentIndex = i\<rparr>
         (replicate (length (choices_of option)) key_down)
       = Continue \<lparr>currentIndex = i\<rparr>
   \<and> handleCheckbox_key option \<lparr>currentIndex = 0, selectedItems = sel\<rparr> key_up
       = Continue \<lparr>currentIndex = int (length (choices_of option)) - 1, selectedItems = sel\<rparr>
   \<and> handleCheckbox_key option
         \<lparr>currentIndex = int (length (choices_of option)) - 1, selectedItems = sel\<rparr> key_down
       = Continue \<lparr>currentIndex = 0, selectedItems = sel\<rparr>
   \<and> run_keys (handleCheckbox_key option) \<lparr>currentIndex = i, selectedItems = sel\<rparr>
         (replicate (length (choices_of option)) key_down)
       = Continue \<lparr>currentIndex = i, selectedItems = sel\<rparr>
   \<and> listed \<noteq> []
   \<and> handleDirectory_key port fs dopt \<lparr>currentIndex = 0, currentPath = p\<rparr> key_up
       = DirContinue \<lparr>currentIndex = int (length listed) - 1, currentPath = p\<rparr>
   \<and> handleDirectory_key port fs dopt \<lparr>currentIndex = int (length listed) - 1, currentPath = p\<rparr> key_down
       = DirContinue \<lparr>currentIndex = 0, currentPath = p\<rparr>
   \<and> run_dir_keys port fs dopt \<lparr>currentIndex = j, currentPath = p\<rparr>
         (replicate (length listed) key_down)
       = DirContinue \<lparr>currentIndex = j, currentPath = p\<rparr>"
proof -
  let ?n = "int (length (choices_of option))"
  have at: "getChoices port fs dopt \<lparr>currentIndex = c, currentPath = p\<rparr> = Inr listed" for c
  proof -
    have "getChoices port fs dopt \<lparr>currentIndex = c, currentPath = p\<rparr>
            = getChoices port fs dopt \<lparr>currentIndex = 0, currentPath = p\<rparr>"
      by (simp add: getChoices_def)
    then show ?thesis using assms(2) by simp
  qed
  have s1: "handleSelectable_key option \<lparr>currentIndex = 0\<rparr> key_up
              = Continue \<lparr>currentIndex = ?n - 1\<rparr>"
    by (simp add: handleSelectable_key_def key_up_def named_key_def Let_def)
  have s2: "handleSelectable_key option \<lparr>currentIndex = ?n - 1\<rparr> key_down
              = Continue \<lparr>currentIndex = 0\<rparr>"
    by (simp add: selectable_down)
  have s3: "run_keys (handleSelectable_key option) \<lparr>currentIndex = i\<rparr>
              (replicate (length (choices_of option)) key_down) = Continue \<lparr>currentIndex = i\<rparr>"
    using assms(3,4) by (simp add: selectable_down_run mod_pos_pos_trivial)
  have c1: "handleCheckbox_key option \<lparr>currentIndex = 0, selectedItems = sel\<rparr> key_up
              = Continue \<lparr>currentIndex = ?n - 1, selectedItems = sel\<rparr>"
    by (simp add: handleCheckbox_key_def key_up_def named_key_def Let_def)
  have c2: "handleCheckbox_key option \<lparr>currentIndex = ?n - 1, selectedItems = sel\<rparr> key_down
              = Continue \<lparr>currentIndex = 0, selectedItems = sel\<rparr>"
    by (simp add: checkbox_down)
  have c3: "run_keys (handleCheckbox_key option) \<lparr>currentIndex = i, selectedItems = sel\<rparr>
              (replicate (length (choices_of option)) key_down)
              = Continue \<lparr>currentIndex = i, selectedItems = sel\<rparr>"
    using assms(3,4) by (simp add: checkbox_down_run mod_pos_pos_trivial)
  have d0: "listed \<noteq> []"
    using assms(2) by (auto simp: getChoices_def split: sum.splits)
  have d1: "handleDirectory_key port fs dopt \<lparr>currentIndex = 0, currentPath = p\<rparr> key_up
              = DirContinue \<lparr>currentIndex = int (length listed) - 1, currentPath = p\<rparr>"
    by (simp add: directory_up [OF at])
  have d2: "handleDirectory_key port fs dopt
              \<lparr>currentIndex = int (length listed) - 1, currentPath = p\<rparr> key_down
              = DirContinue \<lparr>currentIndex = 0, currentPath = p\<rparr>"
    by (simp add: directory_down [OF at])
  have d3: "run_dir_keys port fs dopt \<lparr>currentIndex = j, currentPath = p\<rparr>
              (replicate (length listed) key_down)
              = DirContinue \<lparr>currentIndex = j, currentPath = p\<rparr>"
    using assms(5,6) by (simp add: directory_down_run [OF at] mod_pos_pos_trivial)
  from s1 s2 s3 c1 c2 c3 d0 d1 d2 d3 show ?thesis by blast
qed

lemma sample_listing:
  "getChoices mem_port sample_fs browse_option \<lparr>currentIndex = c, currentPath = ''.''\<rparr>
     = Inr [SELECT_THIS_PATH, ''foo'', ''src'']"
  by (simp add: getChoices_def getDirectories_def mem_port_def mem_readdirSync_def sample_fs_def
        browse_option_def basePath_of_def path_dirname_def Let_def)

theorem cursor_wraparound_witness:
  "choices_of \<lparr>message = ''Pick'', basePath = None, choices = Some [''A'', ''B'', ''C''],
               default' = (None :: string option)\<rparr> \<noteq> []
   \<and> getChoices mem_port sample_fs browse_option \<lparr>currentIndex = 0, currentPath = ''.''\<rparr>
       = Inr [SELECT_THIS_PATH, ''foo'', ''src'']
   \<and> run_keys (handleSelectable_key
        \<lparr>message = ''Pick'', basePath = None, choices = Some [''A'', ''B'', ''C''],
         default' = (None :: string option)\<rparr>) \<lparr>currentIndex = 1\<rparr> (replicate 3 key_down)
       = Continue \<lparr>currentIndex = 1\<rparr>
   \<and> handleCheckbox_key
        \<lparr>message = ''Pick'', basePath = None, choices = Some [''A'', ''B'', ''C''],
         default' = (None :: string option)\<rparr> \<lparr>currentIndex = 0, selectedItems = [1]\<rparr> key_up
       = Continue \<lparr>currentIndex = 2, selectedItems = [1]\<rparr>
   \<and> handleDirectory_key mem_port sample_fs browse_option \<lparr>currentIndex = 2, currentPath = ''.''\<rparr> key_down
       = DirContinue \<lparr>currentIndex = 0, currentPath = ''.''\<rparr>
   \<and> run_dir_keys mem_port sample_fs browse_option \<lparr>currentIndex = 2, currentPath = ''.''\<rparr>
         (replicate 3 key_down)
       = DirContinue \<lparr>currentIndex = 2, currentPath = ''.''\<rparr>"
  using cursor_wraparound
          [of "\<lparr>message = ''Pick'', basePath = None, choices = Some [''A'', ''B'', ''C''],
                default' = (None :: string option)\<rparr>"
              mem_port sample_fs browse_option "''.''" "[SELECT_THIS_PATH, ''foo'', ''src'']" 1 2 "[1]"]
        sample_listing [of 0]
  by (simp add: choices_of_def handleSelectable_key_def handleCheckbox_key_def
        handleDirectory_key_def rendered_def render_def sample_listing
        key_up_def key_down_def named_key_def Let_def numeral_3_eq_3)

section \<open>Properties of the text and confirm prompts\<close>

lemma handleInput_key_types:
  "types_text k \<Longrightarrow>
   handleInput_key option s k = Continue \<lparr>input = input s @ the (str k), hasInput = True\<rparr>"
  by (cases "str k") (auto simp: types_text_def handleInput_key_def resetLine_def truthy_def)

lemma run_handleInput_types:
  "\<forall>k \<in> set ks. types_text k \<Longrightarrow> ks \<noteq> [] \<Longrightarrow>
   run_keys (handleInput_key option) s ks
     = Continue \<lparr>input = input s @ concat (map (\<lambda>k. the (str k)) ks), hasInput = True\<rparr>"
proof (induction ks arbitrary: s)
  case Nil
  then show ?case by simp
next
  case (Cons k ks)
  then have k: "types_text k" by simp
  show ?case
  proof (cases "ks = []")
    case True
    then show ?thesis by (simp add: handleInput_key_types [OF k])
  next
    case False
    then show ?thesis using Cons.prems by (simp add: handleInput_key_types [OF k] Cons.IH)
  qed
qed

text \<open>
  C4. The confirm key of a text prompt resolves with the buffer when it is not empty and
  with the configured default otherwise (the empty string without a default). Typing
  keys and then confirming resolves with what was typed; confirming at once resolves
  with the default; backspace on an empty buffer leaves it empty, so backspace and then
  confirm resolves with the default too.
\<close>

theorem handleInput_confirm:
  assumes "name key = Some ''return''"
      and "name bs = Some ''backspace''"
      and "\<forall>k \<in> set ks. types_text k"
  shows "handleInput_key option s key
           = Resolve (if input s \<noteq> [] then input s
                      else (case default' option of None \<Rightarrow> [] | Some d \<Rightarrow> d))
       \<and> handleInput option (ks @ [key])
           = Resolve (if ks \<noteq> [] then concat (map (\<lambda>k. the (str k)) ks)
                      else (case default' option of None \<Rightarrow> [] | Some d \<Rightarrow> d))
       \<and> handleInput option [key] = Resolve (case default' option of None \<Rightarrow> [] | Some d \<Rightarrow> d)
       \<and> (input s = [] \<longrightarrow> (\<exists>s'. handleInput_key option s bs = Continue s' \<and> input s' = []))
       \<and> handleInput option [bs, key] = Resolve (case default' option of None \<Rightarrow> [] | Some d \<Rightarrow> d)"
proof -
  have d: "or_empty (default' option) = (case default' option of None \<Rightarrow> [] | Some d \<Rightarrow> d)"
    by (simp add: or_empty_def split: option.splits)
  have ret: "handleInput_key option t key = Resolve (if input t \<noteq> [] then input t
                      else (case default' option of None \<Rightarrow> [] | Some d \<Rightarrow> d))" for t
    using assms(1) by (simp add: handleInput_key_def d)
  have bsp: "handleInput_key option t bs = Continue (t\<lparr>hasInput := False\<rparr>)" if "input t = []" for t
    using assms(2) that by (simp add: handleInput_key_def resetLine_def)
  have typed: "handleInput option (ks @ [key])
           = Resolve (if ks \<noteq> [] then concat (map (\<lambda>k. the (str k)) ks)
                      else (case default' option of None \<Rightarrow> [] | Some d \<Rightarrow> d))"
  proof (cases "ks = []")
    case True
    then show ?thesis by (simp add: handleInput_def ret)
  next
    case False
    have ne: "concat (map (\<lambda>k. the (str k)) ks) \<noteq> []"
    proof -
      from False obtain k where "k \<in> set ks" by (cases ks) auto
      with assms(3) have "k \<in> set ks" and "the (str k) \<noteq> []"
        by (auto simp: types_text_def truthy_def split: option.splits)
      then show ?thesis by auto
    qed
    show ?thesis
      using False ne
      by (simp add: handleInput_def run_keys_append run_handleInput_types [OF assms(3) False] ret)
  qed
  have one: "handleInput option [key] = Resolve (case default' option of None \<Rightarrow> [] | Some d \<Rightarrow> d)"
    by (simp add: handleInput_def ret)
  have two: "handleInput option [bs, key] = Resolve (case default' option of None \<Rightarrow> [] | Some d \<Rightarrow> d)"
    by (simp add: handleInput_def ret bsp)
  have three: "input s = [] \<longrightarrow> (\<exists>s'. handleInput_key option s bs = Continue s' \<and> input s' = [])"
    by (simp add: bsp)
  from ret [of s] typed one two three show ?thesis by simp
qed

theorem handleInput_confirm_witness:
  "handleInput
     \<lparr>message = ''Enter component name'', basePath = None, choices = None, default' = Some ''Component''\<rparr>
     ([] @ [key_return]) = Resolve ''Component''
   \<and> handleInput
       \<lparr>message = ''Enter component name'', basePath = None, choices = None, default' = Some ''Component''\<rparr>
       [key_backspace, key_return] = Resolve ''Component''
   \<and> handleInput
       \<lparr>message = ''Enter component name'', basePath = None, choices = None, default' = Some ''Component''\<rparr>
       ([key_char CHR ''A'', key_char CHR ''b''] @ [key_return]) = Resolve ''Ab''
   \<and> (\<exists>s'. handleInput_key
         \<lparr>message = ''Enter component name'', basePath = None, choices = None, default' = Some ''Component''\<rparr>
         \<lparr>input = [], hasInput = False\<rparr> key_backspace = Continue s' \<and> input s' = [])"
  using handleInput_confirm
          [of key_return key_backspace "[]"
              "\<lparr>message = ''Enter component name'', basePath = None, choices = None, default' = Some ''Component''\<rparr>"
              "\<lparr>input = [], hasInput = False\<rparr>"]
        handleInput_confirm
          [of key_return key_backspace "[key_char CHR ''A'', key_char CHR ''b'']"
              "\<lparr>message = ''Enter component name'', basePath = None, choices = None, default' = Some ''Component''\<rparr>"
              "\<lparr>input = [], hasInput = False\<rparr>"]
  by (simp add: key_return_def key_backspace_def key_char_def types_text_def truthy_def)




section \<open>Properties of the directory browser\<close>

lemma path_foo:
  "path_join ''.'' ''foo'' = ''foo''" "path_dirname ''foo'' = ''.''"
  by (simp_all add: path_join_def path_normalize_def normalizeString_def path_dirname_def Let_def)

text \<open>
  C7. A directory prompt with base path \<open>.\<close>, on a filesystem where \<open>.\<close> lists a
  directory \<open>foo\<close> and \<open>foo\<close> can be listed. Moving the cursor down to \<open>foo\<close> and
  confirming makes \<open>foo\<close>, the join of \<open>.\<close> and \<open>foo\<close>, the current path, with the
  cursor at 0 and the go-up marker listed at index 1. Moving down to that marker and
  confirming makes the parent of \<open>foo\<close>, which is \<open>.\<close>, the current path again, where
  the list is the select-this-path marker followed by the directories of \<open>.\<close>.
  Confirming there on the select-this-path marker resolves with \<open>.\<close>. What the prompt resolves with is the current path: confirming on
  the select-this-path marker inside \<open>foo\<close> resolves with \<open>foo\<close>.
\<close>

theorem directory_round_trip:
  assumes "basePath option = Some ''.''"
      and "getDirectories port fs ''.'' = Inr dirs"
      and "i < length dirs" and "dirs ! i = ''foo''"
      and "readdirSync port fs ''foo'' = Inr ents"
  shows "handleDirectory port fs option (replicate (Suc i) key_down)
           = DirContinue \<lparr>currentIndex = 1 + int i, currentPath = ''.''\<rparr>
       \<and> getChoices port fs option \<lparr>currentIndex = 1 + int i, currentPath = ''.''\<rparr>
           = Inr (SELECT_THIS_PATH # dirs)
       \<and> js_index (SELECT_THIS_PATH # dirs) (1 + int i) = Some ''foo''
       \<and> path_join ''.'' ''foo'' = ''foo''
       \<and> handleDirectory port fs option (replicate (Suc i) key_down @ [key_return])
           = DirContinue \<lparr>currentIndex = 0, currentPath = ''foo''\<rparr>
       \<and> getChoices port fs option \<lparr>currentIndex = 0, currentPath = ''foo''\<rparr>
           = Inr (SELECT_THIS_PATH # SELECT_BACK_PATH # map dirent_name (filter isDirectory ents))
       \<and> handleDirectory port fs option (replicate (Suc i) key_down @ [key_return, key_return])
           = DirResolve ''foo''
       \<and> handleDirectory port fs option (replicate (Suc i) key_down @ [key_return, key_down])
           = DirContinue \<lparr>currentIndex = 1, currentPath = ''foo''\<rparr>
       \<and> js_index (SELECT_THIS_PATH # SELECT_BACK_PATH # map dirent_name (filter isDirectory ents)) 1
           = Some SELECT_BACK_PATH
       \<and> path_dirname ''foo'' = ''.''
       \<and> handleDirectory port fs option
             (replicate (Suc i) key_down @ [key_return, key_down, key_return])
           = DirContinue \<lparr>currentIndex = 0, currentPath = ''.''\<rparr>
       \<and> getChoices port fs option \<lparr>currentIndex = 0, currentPath = ''.''\<rparr>
           = Inr (SELECT_THIS_PATH # dirs)
       \<and> handleDirectory port fs option
             (replicate (Suc i) key_down @ [key_return, key_down, key_return, key_return])
           = DirResolve ''.''"
proof -
  let ?home = "\<lparr>currentIndex = 0, currentPath = ''.''\<rparr>"
  let ?at_foo = "\<lparr>currentIndex = 1 + int i, currentPath = ''.''\<rparr>"
  let ?in_foo = "\<lparr>currentIndex = 0, currentPath = ''foo''\<rparr>"
  let ?on_marker = "\<lparr>currentIndex = 1, currentPath = ''foo''\<rparr>"
  let ?sub = "map dirent_name (filter isDirectory ents)"
  let ?downs = "replicate (Suc i) key_down"
  have base: "basePath_of option = ''.''"
    using assms(1) by (simp add: basePath_of_def)
  have home: "getChoices port fs option \<lparr>currentIndex = c, currentPath = ''.''\<rparr>
                = Inr (SELECT_THIS_PATH # dirs)" for c
    using assms(2) by (simp add: getChoices_def base)
  have foo: "getChoices port fs option \<lparr>currentIndex = c, currentPath = ''foo''\<rparr>
                = Inr (SELECT_THIS_PATH # SELECT_BACK_PATH # ?sub)" for c
    using assms(5) by (simp add: getChoices_def getDirectories_def base)
  have first_render: "rendered port fs option ?home = DirContinue ?home"
    by (rule rendered_ok [OF home])
  have downs: "run_dir_keys port fs option ?home ?downs = DirContinue ?at_foo"
    using directory_down_steps [OF home, of 0 "Suc i"] assms(3) by simp
  have not_marker: "''foo'' \<noteq> SELECT_THIS_PATH" "''foo'' \<noteq> SELECT_BACK_PATH"
    by (simp_all add: SELECT_THIS_PATH_def SELECT_BACK_PATH_def)
  have markers: "SELECT_BACK_PATH \<noteq> SELECT_THIS_PATH"
    by (simp add: SELECT_THIS_PATH_def SELECT_BACK_PATH_def)
  have selected: "js_index (SELECT_THIS_PATH # dirs) (1 + int i) = Some ''foo''"
  proof -
    have "nat (1 + int i) = Suc i" by simp
    then show ?thesis using assms(3,4) unfolding js_index_def by simp
  qed
  have on_marker: "js_index (SELECT_THIS_PATH # SELECT_BACK_PATH # ?sub) 1 = Some SELECT_BACK_PATH"
    by (simp add: js_index_def)
  have enter: "handleDirectory_key port fs option ?at_foo key_return = DirContinue ?in_foo"
    using not_marker
    by (simp add: handleDirectory_key_def home key_return_def selected Let_def path_foo
          rendered_ok [OF foo])
  have pick_foo: "handleDirectory_key port fs option ?in_foo key_return = DirResolve ''foo''"
    by (simp add: handleDirectory_key_def foo key_return_def js_index_def Let_def)
  have down: "handleDirectory_key port fs option ?in_foo key_down = DirContinue ?on_marker"
    by (simp add: directory_down [OF foo])
  have go_up: "handleDirectory_key port fs option ?on_marker key_return = DirContinue ?home"
    using markers
    by (simp add: handleDirectory_key_def foo key_return_def on_marker Let_def path_foo
          rendered_ok [OF home])
  have pick: "handleDirectory_key port fs option ?home key_return = DirResolve ''.''"
    by (simp add: handleDirectory_key_def home key_return_def js_index_def Let_def)
  have run: "handleDirectory port fs option (?downs @ ks)
               = run_dir_keys port fs option ?at_foo ks" for ks
    by (simp add: handleDirectory_def base first_render run_dir_keys_append downs
          del: replicate.simps)
  have r0: "handleDirectory port fs option ?downs = DirContinue ?at_foo"
    using run [of "[]"] by (simp del: replicate.simps)
  have r1: "handleDirectory port fs option (?downs @ [key_return]) = DirContinue ?in_foo"
    by (subst run) (simp add: enter)
  have r1': "handleDirectory port fs option (?downs @ [key_return, key_return]) = DirResolve ''foo''"
    by (subst run) (simp add: enter pick_foo)
  have r2: "handleDirectory port fs option (?downs @ [key_return, key_down]) = DirContinue ?on_marker"
    by (subst run) (simp add: enter down)
  have r3: "handleDirectory port fs option (?downs @ [key_return, key_down, key_return])
              = DirContinue ?home"
    by (subst run) (simp add: enter down go_up)
  have r4: "handleDirectory port fs option (?downs @ [key_return, key_down, key_return, key_return])
              = DirResolve ''.''"
    by (subst run) (simp add: enter down go_up pick)
  from r0 home [of "1 + int i"] selected path_foo(1) r1 foo [of 0] r1' r2 on_marker path_foo(2)
       r3 home [of 0] r4
  show ?thesis by blast
qed

lemma sample_dirs:
  "getDirectories mem_port sample_fs ''.'' = Inr [''foo'', ''src'']"
  "readdirSync mem_port sample_fs ''foo'' = Inr [\<lparr>dirent_name = ''bar'', isDirectory = True\<rparr>]"
  by (simp_all add: getDirectories_def mem_port_def mem_readdirSync_def sample_fs_def
        path_dirname_def Let_def)

theorem directory_round_trip_witness:
  "basePath browse_option = Some ''.''
   \<and> getDirectories mem_port sample_fs ''.'' = Inr [''foo'', ''src'']
   \<and> [''foo'', ''src''] ! 0 = ''foo''
   \<and> readdirSync mem_port sample_fs ''foo'' = Inr [\<lparr>dirent_name = ''bar'', isDirectory = True\<rparr>]
   \<and> handleDirectory mem_port sample_fs browse_option (replicate (Suc 0) key_down @ [key_return])
       = DirContinue \<lparr>currentIndex = 0, currentPath = ''foo''\<rparr>
   \<and> getChoices mem_port sample_fs browse_option \<lparr>currentIndex = 0, currentPath = ''foo''\<rparr>
       = Inr [SELECT_THIS_PATH, SELECT_BACK_PATH, ''bar'']
   \<and> handleDirectory mem_port sample_fs browse_option
        (replicate (Suc 0) key_down @ [key_return, key_return])
       = DirResolve ''foo''
   \<and> handleDirectory mem_port sample_fs browse_option
        (replicate (Suc 0) key_down @ [key_return, key_down, key_return])
       = DirContinue \<lparr>currentIndex = 0, currentPath = ''.''\<rparr>
   \<and> handleDirectory mem_port sample_fs browse_option
        (replicate (Suc 0) key_down @ [key_return, key_down, key_return, key_return])
       = DirResolve ''.''"
  using directory_round_trip
          [of browse_option mem_port sample_fs "[''foo'', ''src'']" 0
              "[\<lparr>dirent_name = ''bar'', isDirectory = True\<rparr>]"]
        sample_dirs
  by (simp add: browse_option_def)

section \<open>Properties of the folder and template helpers\<close>

text \<open>
  C8. \<open>makeTemplate\<close> on a target path that exists logs the error and returns with the
  filesystem as it was, whatever \<open>writeFileSync\<close> would have done: nothing is written
  and the existing file keeps its content.
\<close>

theorem makeTemplate_no_clobber:
  assumes "existsSync port fs (path_join dir file_name)"
  shows "makeTemplate port fs dir file_name code
           = \<lparr>outcome = Inr (), fs_after = fs,
              errors_logged = [''[Snpy-Error] File already exists: '' @ path_join dir file_name]\<rparr>"
  using assms by (simp add: makeTemplate_def Let_def)

theorem makeTemplate_no_clobber_witness:
  "existsSync mem_port sample_fs (path_join ''.'' ''readme.md'')
   \<and> fs_after (makeTemplate mem_port sample_fs ''.'' ''readme.md'' ''new'') = sample_fs
   \<and> map_of (fs_after (makeTemplate mem_port sample_fs ''.'' ''readme.md'' ''new'')) ''readme.md''
       = Some (File ''hello'')
   \<and> errors_logged (makeTemplate mem_port sample_fs ''.'' ''readme.md'' ''new'')
       = [''[Snpy-Error] File already exists: readme.md'']"
proof -
  have p: "path_join ''.'' ''readme.md'' = ''readme.md''"
    by (simp add: path_join_def path_normalize_def normalizeString_def Let_def)
  have e: "existsSync mem_port sample_fs (path_join ''.'' ''readme.md'')"
    by (simp add: p mem_port_def mem_existsSync_def sample_fs_def)
  from makeTemplate_no_clobber [OF e, of "''new''"] e show ?thesis
    by (simp add: p sample_fs_def)
qed

text \<open>
  C2, as stated, fails on the listing. The listing of the directory browser is not
  guarded: where \<open>readdirSync\<close> throws, \<open>getDirectories\<close> throws, and so does the
  browser. Here \<open>foo\<close> is listed in \<open>.\<close> but may not be read; confirming on it throws
  out of the key handler.
\<close>

theorem listing_error_propagates:
  "getDirectories (denying_port [''foo'']) sample_fs ''foo'' = Inl (FsError ''EACCES'')
   \<and> handleDirectory (denying_port [''foo'']) sample_fs browse_option [key_down, key_return]
       = DirThrow (FsError ''EACCES'')"
  by (simp add: handleDirectory_def handleDirectory_key_def rendered_def render_def getChoices_def
        getDirectories_def denying_port_def mem_port_def mem_readdirSync_def sample_fs_def
        browse_option_def basePath_of_def path_dirname_def path_join_def path_normalize_def
        normalizeString_def SELECT_THIS_PATH_def SELECT_BACK_PATH_def js_index_def
        key_down_def key_return_def named_key_def Let_def)

text \<open>\<open>makeFolder\<close> at a parent that does not exist: the error of \<open>mkdirSync\<close> is thrown on.\<close>

lemma makeFolder_throws:
  "outcome (makeFolder mem_port sample_fs ''nodir'' ''x'') = Inl (FsError ''ENOENT'')"
  by (simp add: makeFolder_def mem_port_def mem_existsSync_def mem_mkdirSync_def sample_fs_def
        path_dirname_def path_join_def path_normalize_def normalizeString_def Let_def)

text \<open>
  C2, as amended. An error of the file write in \<open>makeTemplate\<close> and an error of the
  directory creation in the browser's \<open>createNewFolder\<close> are caught where they arise and
  reported: both return, with the failure logged and, for the browser, the current path
  kept. An error of the directory listing is not caught: it is thrown out of
  \<open>getDirectories\<close> and out of the browser's key handler.
\<close>

theorem fs_errors_caught_or_thrown:
  "outcome (makeTemplate port fs dir file_name code) = Inr ()
   \<and> (\<not> existsSync port fs (path_join dir file_name)
        \<and> writeFileSync port fs (path_join dir file_name) code = (Some e, fs')
      \<longrightarrow> makeTemplate port fs dir file_name code
            = \<lparr>outcome = Inr (), fs_after = fs',
               errors_logged = [''[Snpy-Error] Failed to write file: '' @ path_join dir file_name]\<rparr>)
   \<and> (\<exists>success. outcome (createNewFolder port fs s folderName) = Inr success)
   \<and> (folderName \<noteq> [] \<and> \<not> existsSync port fs (path_join (currentPath s) folderName)
        \<and> mkdirSync port fs (path_join (currentPath s) folderName) = (Some e, fs')
      \<longrightarrow> createNewFolder port fs s folderName
            = \<lparr>outcome = Inr (False, s), fs_after = fs',
               errors_logged = [[CHR 0x0A] @ ''Failed to create folder!'' @ [CHR 0x0A]]\<rparr>)
   \<and> (readdirSync port fs source = Inl e \<longrightarrow> getDirectories port fs source = Inl e)
   \<and> (readdirSync port fs (currentPath s) = Inl e
      \<longrightarrow> handleDirectory_key port fs option s key = DirThrow e)"
proof -
  have t1: "outcome (makeTemplate port fs dir file_name code) = Inr ()"
    by (simp add: makeTemplate_def Let_def split: prod.splits option.splits)
  have t2: "\<not> existsSync port fs (path_join dir file_name)
        \<and> writeFileSync port fs (path_join dir file_name) code = (Some e, fs')
      \<longrightarrow> makeTemplate port fs dir file_name code
            = \<lparr>outcome = Inr (), fs_after = fs',
               errors_logged = [''[Snpy-Error] Failed to write file: '' @ path_join dir file_name]\<rparr>"
    by (simp add: makeTemplate_def Let_def)
  have f1: "\<exists>success. outcome (createNewFolder port fs s folderName) = Inr success"
    by (auto simp: createNewFolder_def Let_def split: prod.splits option.splits)
  have f2: "folderName \<noteq> [] \<and> \<not> existsSync port fs (path_join (currentPath s) folderName)
        \<and> mkdirSync port fs (path_join (currentPath s) folderName) = (Some e, fs')
      \<longrightarrow> createNewFolder port fs s folderName
            = \<lparr>outcome = Inr (False, s), fs_after = fs',
               errors_logged = [[CHR 0x0A] @ ''Failed to create folder!'' @ [CHR 0x0A]]\<rparr>"
    by (simp add: createNewFolder_def Let_def)
  have l1: "readdirSync port fs source = Inl e \<longrightarrow> getDirectories port fs source = Inl e"
    by (simp add: getDirectories_def)
  have l2: "readdirSync port fs (currentPath s) = Inl e
      \<longrightarrow> handleDirectory_key port fs option s key = DirThrow e"
    by (simp add: handleDirectory_key_def getChoices_def getDirectories_def)
  from t1 t2 f1 f2 l1 l2 show ?thesis by blast
qed

theorem fs_errors_caught_or_thrown_witness:
  "\<not> existsSync mem_port sample_fs (path_join ''nodir'' ''x.ts'')
   \<and> writeFileSync mem_port sample_fs (path_join ''nodir'' ''x.ts'') ''new''
       = (Some (FsError ''ENOENT''), sample_fs)
   \<and> makeTemplate mem_port sample_fs ''nodir'' ''x.ts'' ''new''
       = \<lparr>outcome = Inr (), fs_after = sample_fs,
          errors_logged = [''[Snpy-Error] Failed to write file: nodir/x.ts'']\<rparr>
   \<and> mkdirSync mem_port sample_fs (path_join ''nodir'' ''x.ts'') = (Some (FsError ''ENOENT''), sample_fs)
   \<and> createNewFolder mem_port sample_fs \<lparr>currentIndex = 0, currentPath = ''nodir''\<rparr> ''x.ts''
       = \<lparr>outcome = Inr (False, \<lparr>currentIndex = 0, currentPath = ''nodir''\<rparr>), fs_after = sample_fs,
          errors_logged = [[CHR 0x0A] @ ''Failed to create folder!'' @ [CHR 0x0A]]\<rparr>
   \<and> readdirSync mem_port sample_fs ''nodir'' = Inl (FsError ''ENOENT'')
   \<and> getDirectories mem_port sample_fs ''nodir'' = Inl (FsError ''ENOENT'')
   \<and> handleDirectory_key mem_port sample_fs browse_option
        \<lparr>currentIndex = 0, currentPath = ''nodir''\<rparr> key_down = DirThrow (FsError ''ENOENT'')"
proof -
  have p: "path_join ''nodir'' ''x.ts'' = ''nodir/x.ts''"
    by (simp add: path_join_def path_normalize_def normalizeString_def Let_def)
  have d: "path_dirname ''nodir/x.ts'' = ''nodir''"
    by (simp add: path_dirname_def Let_def)
  have a: "\<not> existsSync mem_port sample_fs (path_join ''nodir'' ''x.ts'')"
    by (simp add: p mem_port_def mem_existsSync_def sample_fs_def)
  have b: "writeFileSync mem_port sample_fs (path_join ''nodir'' ''x.ts'') ''new''
             = (Some (FsError ''ENOENT''), sample_fs)"
    by (simp add: p d mem_port_def mem_writeFileSync_def sample_fs_def)
  have c: "mkdirSync mem_port sample_fs (path_join ''nodir'' ''x.ts'') = (Some (FsError ''ENOENT''), sample_fs)"
    by (simp add: p d mem_port_def mem_mkdirSync_def sample_fs_def)
  have r: "readdirSync mem_port sample_fs ''nodir'' = Inl (FsError ''ENOENT'')"
    by (simp add: mem_port_def mem_readdirSync_def sample_fs_def)
  from fs_errors_caught_or_thrown
         [of mem_port sample_fs "''nodir''" "''x.ts''" "''new''" "FsError ''ENOENT''" sample_fs
             "\<lparr>currentIndex = 0, currentPath = ''nodir''\<rparr>" "''x.ts''" "''nodir''"
             browse_option key_down]
       a b c r
  show ?thesis by (simp add: p)
qed


end
